theory Spec2Isabelle
  imports Main
begin

section \<open>NTRIP client: \<open>NtripClient.Connect\<close>\<close>

text \<open>
  Go strings and byte slices are sequences of bytes; they are modelled as \<open>string\<close>
  (lists of 8-bit characters). The line terminator of the wire protocol is CR LF.
\<close>

definition crlf :: string where
  "crlf = [CHR 0x0D, CHR 0x0A]"

record NtripClient =
  serverAddr :: string
  mountpoint :: string
  username :: string
  password :: string
  outputFile :: string

definition NewNtripClient :: "string \<Rightarrow> string \<Rightarrow> string \<Rightarrow> string \<Rightarrow> string \<Rightarrow> NtripClient" where
  "NewNtripClient sa mp u p out =
     \<lparr>serverAddr = sa, mountpoint = mp, username = u, password = p, outputFile = out\<rparr>"

text \<open>
  The request assembled by \<open>Connect\<close>: the request line, the credential header guarded by
  \<open>c.username != "" && c.password != ""\<close>, the client-identity header and the
  connection-close hint followed by the blank line. \<open>auth\<close> is
  \<open>fmt.Sprintf("%s:%s", c.username, c.password)\<close> and is inserted into the header as it is.
\<close>

definition auth_of :: "NtripClient \<Rightarrow> string" where
  "auth_of c = username c @ '':'' @ password c"

definition request_of :: "NtripClient \<Rightarrow> string" where
  "request_of c =
     (''GET /'' @ mountpoint c @ '' HTTP/1.0'' @ crlf)
     @ (if username c \<noteq> [] \<and> password c \<noteq> []
        then ''Authorization: Basic '' @ auth_of c @ crlf
        else [])
     @ (''User-Agent: NTRIP Client'' @ crlf)
     @ (''Connection: close'' @ crlf @ crlf)"

text \<open>
  The results of the calls \<open>Connect\<close> makes to the outside are its environment. A call
  \<open>conn.Read(buf)\<close> returns the bytes read (\<open>buf[:n]\<close>) and an error, which is \<open>nil\<close>,
  \<open>io.EOF\<close> or another error. The successive reads of the connection are a list; when the
  list is used up the next read has not returned yet and \<open>Connect\<close> is blocked in it.
\<close>

datatype io_err = EOF | OtherErr

type_synonym read_result = "string \<times> io_err option"

record client_env =
  dial_ok :: bool
  create_ok :: bool
  send_ok :: bool
  conn_reads :: "read_result list"
  create_rtcm_ok :: bool
  fwrite_ok :: "nat \<Rightarrow> bool"

text \<open>The errors \<open>Connect\<close> builds with \<open>fmt.Errorf\<close>, one constructor per message.\<close>

datatype client_error =
    ConnectFailed
  | CreateOutputFailed
  | SendRequestFailed
  | ReadResponseFailed
  | InvalidServerResponse string
  | CreateRtcmFailed
  | ReadRtcmFailed
  | WriteRtcmFailed

text \<open>
  \<open>Connect\<close> either returns (\<open>nil\<close> or an error), panics, or is still blocked in a read.
\<close>

datatype outcome = Returned "client_error option" | Panicked | Blocked

datatype client_log = LogConnected | LogClosedByServer | LogReceived nat

text \<open>
  What \<open>Connect\<close> acts on: the file system (file name to contents), the bytes sent on the
  connection, whether the connection has been closed, standard output, and the log.
\<close>

record world =
  files :: "string \<rightharpoonup> string"
  conn_sent :: string
  conn_closed :: bool
  std_out :: string
  client_logs :: "client_log list"

definition os_Create :: "string \<Rightarrow> world \<Rightarrow> world" where
  "os_Create path w = w\<lparr>files := (files w)(path \<mapsto> [])\<rparr>"

definition file_Write :: "string \<Rightarrow> string \<Rightarrow> world \<Rightarrow> world" where
  "file_Write path data w =
     w\<lparr>files := (files w)(path \<mapsto> (case files w path of None \<Rightarrow> data | Some old \<Rightarrow> old @ data))\<rparr>"

text \<open>
  The loop "Read and save RTCM data": \<open>k\<close> counts the calls of \<open>rtcmFile.Write\<close>. A
  failed write is taken to have written nothing.
\<close>

fun relay :: "client_env \<Rightarrow> string \<Rightarrow> nat \<Rightarrow> read_result list \<Rightarrow> world \<Rightarrow> outcome \<times> world" where
  "relay env path k [] w = (Blocked, w)"
| "relay env path k ((data, err) # rs) w =
     (case err of
        Some EOF \<Rightarrow> (Returned None, w\<lparr>client_logs := client_logs w @ [LogClosedByServer]\<rparr>)
      | Some OtherErr \<Rightarrow> (Returned (Some ReadRtcmFailed), w)
      | None \<Rightarrow>
          if \<not> fwrite_ok env k then (Returned (Some WriteRtcmFailed), w)
          else relay env path (Suc k) rs
                 ((file_Write path data w)
                    \<lparr>std_out := std_out w @ data,
                     client_logs := client_logs w @ [LogReceived (length data)]\<rparr>))"

text \<open>
  The body of \<open>Connect\<close> after a successful \<open>net.Dial\<close>. The slice expression
  \<open>response[:3]\<close> panics when the response has fewer than three bytes.
\<close>

definition connected :: "NtripClient \<Rightarrow> client_env \<Rightarrow> world \<Rightarrow> outcome \<times> world" where
  "connected c env w =
     (if \<not> create_ok env then (Returned (Some CreateOutputFailed), w)
      else
        let w1 = os_Create (outputFile c) w in
        if \<not> send_ok env then (Returned (Some SendRequestFailed), w1)
        else
          let w2 = w1\<lparr>conn_sent := conn_sent w1 @ request_of c\<rparr> in
          case conn_reads env of
            [] \<Rightarrow> (Blocked, w2)
          | (response, err) # rs \<Rightarrow>
              if err \<noteq> None then (Returned (Some ReadResponseFailed), w2)
              else if length response < 3 then (Panicked, w2)
              else if take 3 response \<noteq> ''ICY'' then
                (Returned (Some (InvalidServerResponse response)), w2)
              else
                let w3 = w2\<lparr>client_logs := client_logs w2 @ [LogConnected]\<rparr> in
                if \<not> create_rtcm_ok env then (Returned (Some CreateRtcmFailed), w3)
                else relay env (outputFile c) 0 rs (os_Create (outputFile c) w3))"

text \<open>
  \<open>Connect\<close>: \<open>defer conn.Close()\<close> runs when the function returns and when it panics.
\<close>

definition Connect :: "NtripClient \<Rightarrow> client_env \<Rightarrow> world \<Rightarrow> outcome \<times> world" where
  "Connect c env w =
     (if \<not> dial_ok env then (Returned (Some ConnectFailed), w)
      else
        case connected c env w of
          (Blocked, w') \<Rightarrow> (Blocked, w')
        | (r, w') \<Rightarrow> (r, w'\<lparr>conn_closed := True\<rparr>))"

text \<open>
  The encoding the Basic scheme prescribes (RFC 4648, standard alphabet with padding),
  written from its definition for comparison with the header the code emits.
\<close>

definition b64_alphabet :: string where
  "b64_alphabet = ''ABCDEFGHIJKLMNOPQRSTUVWXYZabcdefghijklmnopqrstuvwxyz0123456789+/''"

definition b64_digit :: "nat \<Rightarrow> char" where
  "b64_digit n = b64_alphabet ! (n mod 64)"

fun base64_spec :: "string \<Rightarrow> string" where
  "base64_spec [] = []"
| "base64_spec [a] =
     (let n = (of_char a :: nat) * 65536
      in [b64_digit (n div 262144), b64_digit (n div 4096), CHR ''='', CHR ''=''])"
| "base64_spec [a, b] =
     (let n = (of_char a :: nat) * 65536 + of_char b * 256
      in [b64_digit (n div 262144), b64_digit (n div 4096), b64_digit (n div 64), CHR ''=''])"
| "base64_spec (a # b # c # rest) =
     (let n = (of_char a :: nat) * 65536 + of_char b * 256 + of_char c
      in [b64_digit (n div 262144), b64_digit (n div 4096), b64_digit (n div 64), b64_digit n]
         @ base64_spec rest)"

text \<open>\<open>contains s sub\<close>: \<open>sub\<close> occurs in \<open>s\<close> as a contiguous run of bytes.\<close>

fun starts_with :: "string \<Rightarrow> string \<Rightarrow> bool" where
  "starts_with s [] = True"
| "starts_with [] (y # ys) = False"
| "starts_with (x # xs) (y # ys) = (x = y \<and> starts_with xs ys)"

fun contains :: "string \<Rightarrow> string \<Rightarrow> bool" where
  "contains [] sub = (sub = [])"
| "contains (x # xs) sub = (starts_with (x # xs) sub \<or> contains xs sub)"


section \<open>NTRIP server\<close>

subsection \<open>Configuration and start-up\<close>

text \<open>The two nested structs of \<open>Config\<close>, flattened.\<close>

record Config =
  server_port :: int
  server_host :: string
  server_timeout :: int
  serial_port :: string
  serial_baud_rate :: int
  serial_data_bits :: int
  serial_stop_bits :: int
  serial_parity :: string

datatype Parity = ParityNone | ParityEven | ParityOdd

text \<open>
  \<open>serial.Config\<close> as \<open>initSerial\<close> fills it in. \<open>Size\<close> and \<open>StopBits\<close> are bytes: the
  conversion from \<open>int\<close> keeps the low eight bits.
\<close>

record serial_Config =
  Name :: string
  Baud :: int
  Size :: int
  StopBits :: int
  ParityOf :: Parity

text \<open>A connection handle is identified by the order of its acceptance.\<close>

type_synonym conn = nat

text \<open>What has happened on a socket, oldest first: bytes written, bytes read, \<open>Close\<close>.\<close>

datatype ev = Wr string | Rd string | Cl

datatype handle_state = Open | Closed

datatype server_error = InvalidParity string | OpenSerialFailed | StartServerFailed

datatype server_log =
    LogSerialOpened
  | LogServerStarted
  | LogSerialReadError
  | LogClientWriteError
  | LogAcceptError
  | LogHeaderError
  | LogClientReadError

text \<open>
  The three kinds of goroutine and the statement each is at.
  \<open>readSerialData\<close>: at \<open>s.serial.Read\<close>; holding \<open>data\<close> in front of the \<open>range\<close> loop;
  inside \<open>for conn := range s.clients\<close> with the keys still to be produced; after a
  failed write to \<open>conn\<close>, at \<open>conn.Close()\<close> and at \<open>delete(s.clients, conn)\<close>.
  \<open>acceptConnections\<close>: at \<open>Accept\<close>; at \<open>s.clients[conn] = true\<close>; at
  \<open>go s.handleClient(conn)\<close>.
  \<open>handleClient\<close>: at the write of the header; at \<open>conn.Read\<close> in the keep-alive loop; in
  the deferred function at \<open>conn.Close()\<close> and at \<open>delete(s.clients, conn)\<close>; finished.
  Every goroutine is \<open>Crashed\<close> once the Go runtime has ended the process with a fatal
  error.
\<close>

datatype btask =
    B_NotStarted | B_Read | B_Data string | B_Range string "conn list"
  | B_Close string conn "conn list" | B_Delete string conn "conn list" | B_Crashed

datatype atask = A_NotStarted | A_Accept | A_Register conn | A_Spawn conn | A_Crashed

datatype htask = H_NotStarted | H_Greet | H_Read | H_Close | H_Delete | H_Done | H_Crashed

datatype gor = G_Broadcast | G_Accept | G_Handler conn

text \<open>
  \<open>NtripServer\<close> with what its goroutines act on. \<open>clients\<close> is the key set of the map
  \<open>map[net.Conn]bool\<close> (every stored value is \<open>true\<close>); \<open>listener\<close> and \<open>serial\<close> are
  \<open>None\<close> for \<open>nil\<close>. There is no lock among the fields. Two fields belong to the map
  as the Go runtime keeps it: \<open>map_writer\<close> is the goroutine that has begun a write
  (an assignment or a \<open>delete\<close>) to the map and not yet finished it, \<open>produced\<close> the keys
  the running \<open>range\<close> loop has produced so far.
\<close>

record NtripServer =
  config :: Config
  port :: int
  listener :: "handle_state option"
  clients :: "conn set"
  serial :: "handle_state option"
  socks :: "conn \<Rightarrow> ev list"
  accepted :: nat
  logs :: "server_log list"
  bpc :: btask
  apc :: atask
  hpc :: "conn \<Rightarrow> htask"
  map_writer :: "gor option"
  produced :: "conn set"

definition NewNtripServer :: "Config \<Rightarrow> NtripServer" where
  "NewNtripServer cfg =
     \<lparr>config = cfg, port = server_port cfg, listener = None, clients = {}, serial = None,
      socks = (\<lambda>c. []), accepted = 0, logs = [],
      bpc = B_NotStarted, apc = A_NotStarted, hpc = (\<lambda>c. H_NotStarted),
      map_writer = None, produced = {}\<rparr>"

record start_env =
  open_port :: "serial_Config \<Rightarrow> bool"
  net_listen :: "string \<Rightarrow> int \<Rightarrow> bool"

definition parity_of :: "string \<Rightarrow> Parity option" where
  "parity_of p =
     (if p = ''N'' then Some ParityNone
      else if p = ''E'' then Some ParityEven
      else if p = ''O'' then Some ParityOdd
      else None)"

definition initSerial :: "start_env \<Rightarrow> NtripServer \<Rightarrow> server_error option \<times> NtripServer" where
  "initSerial env s =
     (case parity_of (serial_parity (config s)) of
        None \<Rightarrow> (Some (InvalidParity (serial_parity (config s))), s)
      | Some par \<Rightarrow>
          let c = \<lparr>Name = serial_port (config s), Baud = serial_baud_rate (config s),
                   Size = serial_data_bits (config s) mod 256,
                   StopBits = serial_stop_bits (config s) mod 256, ParityOf = par\<rparr>
          in if \<not> open_port env c then (Some OpenSerialFailed, s\<lparr>serial := None\<rparr>)
             else (None, s\<lparr>serial := Some Open, logs := logs s @ [LogSerialOpened]\<rparr>))"

text \<open>
  \<open>Start\<close>: the two \<open>go\<close> statements put the broadcast task at its first read and the
  accept task at its first \<open>Accept\<close>.
\<close>

definition Start :: "start_env \<Rightarrow> NtripServer \<Rightarrow> server_error option \<times> NtripServer" where
  "Start env s =
     (case initSerial env s of
        (Some e, s1) \<Rightarrow> (Some e, s1)
      | (None, s1) \<Rightarrow>
          if \<not> net_listen env (server_host (config s1)) (port s1)
          then (Some StartServerFailed, s1\<lparr>listener := None\<rparr>)
          else (None, s1\<lparr>listener := Some Open, logs := logs s1 @ [LogServerStarted],
                          bpc := B_Read, apc := A_Accept\<rparr>))"

subsection \<open>The goroutines, statement by statement\<close>

definition greeting :: string where
  "greeting = ''ICY 200 OK'' @ crlf"

definition is_closed :: "ev list \<Rightarrow> bool" where
  "is_closed evs = (Cl \<in> set evs)"

definition sock_add :: "conn \<Rightarrow> ev \<Rightarrow> NtripServer \<Rightarrow> NtripServer" where
  "sock_add c e s = s\<lparr>socks := (socks s)(c := socks s c @ [e])\<rparr>"

text \<open>
  A write to a Go map is not atomic: the runtime marks the map while a write is under
  way. A write that finds the map marked by another goroutine, and a step of a \<open>range\<close>
  loop that finds it marked, end the process with a fatal error ("concurrent map
  writes", "concurrent map iteration and map write"); no goroutine runs after that.
\<close>

definition crash :: "NtripServer \<Rightarrow> NtripServer" where
  "crash s = s\<lparr>bpc := B_Crashed, apc := A_Crashed, hpc := (\<lambda>c. H_Crashed)\<rparr>"

text \<open>
  \<open>map_write g s s'\<close>: goroutine \<open>g\<close> carries out (or, if it has begun it, completes) a
  write to the map that leads from \<open>s\<close> to \<open>s'\<close>. \<open>iter_step s s'\<close>: the \<open>range\<close> loop
  starts or advances.
\<close>

definition map_write :: "gor \<Rightarrow> NtripServer \<Rightarrow> NtripServer \<Rightarrow> NtripServer" where
  "map_write g s s' =
     (if map_writer s = None \<or> map_writer s = Some g then s'\<lparr>map_writer := None\<rparr>
      else crash s)"

definition iter_step :: "NtripServer \<Rightarrow> NtripServer \<Rightarrow> NtripServer" where
  "iter_step s s' = (if map_writer s = None then s' else crash s)"

text \<open>Goroutine \<open>g\<close> is at a statement that writes to the map.\<close>

fun at_map_write :: "gor \<Rightarrow> NtripServer \<Rightarrow> bool" where
  "at_map_write G_Broadcast s = (case bpc s of B_Delete data c rest \<Rightarrow> True | _ \<Rightarrow> False)"
| "at_map_write G_Accept s = (case apc s of A_Register c \<Rightarrow> True | _ \<Rightarrow> False)"
| "at_map_write (G_Handler c) s = (hpc s c = H_Delete)"

text \<open>
  A label names what runs next and what the outside world answers to it: one statement of
  a goroutine. \<open>RangeNext\<close> is the advance of the \<open>range\<close> loop to its next key together
  with \<open>conn.Write(data)\<close> and, when the write fails, the log entry; \<open>RangeClose\<close> and
  \<open>RangeDelete\<close> are the two statements that follow a failed write. \<open>Register\<close>,
  \<open>HDelete\<close> and \<open>RangeDelete\<close> are the writes to the map; \<open>MapWriteBegin g\<close> is the
  beginning of the write goroutine \<open>g\<close> is at, which the write statement then completes.
  \<open>RangeAdopt c\<close>: the running loop takes up a key inserted after it began (Go leaves
  open whether such a key is produced).
\<close>

datatype label =
    SerialRead string "io_err option"
  | RangeStart "conn list"
  | RangeNext bool
  | RangeEnd
  | Accept bool
  | Register
  | Spawn
  | Greet conn bool
  | ConnRead conn string "io_err option"
  | HClose conn
  | HDelete conn
  | RangeClose
  | RangeDelete
  | RangeAdopt conn
  | MapWriteBegin gor

text \<open>
  \<open>step l s\<close> is \<open>None\<close> when the goroutine of \<open>l\<close> is not at that statement or the answer
  is not one the call can give (more bytes than the buffer holds, an order that does not
  enumerate the keys). The order of the keys is fixed when the loop starts (Go leaves it
  unspecified). A key removed from the map before the loop reaches it is not produced.
  In \<open>RangeNext ok\<close> and \<open>Greet c ok\<close>, \<open>ok\<close> says whether the peer and the network take
  the write; a write to a socket already closed fails in any case, and so does a read.
  A failed write is taken to deliver nothing.
\<close>

fun step :: "label \<Rightarrow> NtripServer \<Rightarrow> NtripServer option" where
  "step (SerialRead data err) s =
     (if bpc s = B_Read \<and> length data \<le> 1024 then
        (if err \<noteq> None then Some (s\<lparr>logs := logs s @ [LogSerialReadError]\<rparr>)
         else Some (s\<lparr>bpc := B_Data data\<rparr>))
      else None)"
| "step (RangeStart order) s =
     (case bpc s of
        B_Data data \<Rightarrow>
          if distinct order \<and> set order = clients s
          then Some (iter_step s (s\<lparr>bpc := B_Range data order, produced := {}\<rparr>))
          else None
      | _ \<Rightarrow> None)"
| "step (RangeNext ok) s =
     (case bpc s of
        B_Range data (c # rest) \<Rightarrow>
          Some (iter_step s
            (if c \<notin> clients s then s\<lparr>bpc := B_Range data rest\<rparr>
             else if ok \<and> \<not> is_closed (socks s c)
             then (sock_add c (Wr data) s)
                    \<lparr>bpc := B_Range data rest, produced := insert c (produced s)\<rparr>
             else s\<lparr>logs := logs s @ [LogClientWriteError], bpc := B_Close data c rest,
                    produced := insert c (produced s)\<rparr>))
      | _ \<Rightarrow> None)"
| "step RangeClose s =
     (case bpc s of
        B_Close data c rest \<Rightarrow> Some ((sock_add c Cl s)\<lparr>bpc := B_Delete data c rest\<rparr>)
      | _ \<Rightarrow> None)"
| "step RangeDelete s =
     (case bpc s of
        B_Delete data c rest \<Rightarrow>
          Some (map_write G_Broadcast s (s\<lparr>clients := clients s - {c}, bpc := B_Range data rest\<rparr>))
      | _ \<Rightarrow> None)"
| "step (RangeAdopt c) s =
     (case bpc s of
        B_Range data rest \<Rightarrow>
          if c \<in> clients s \<and> c \<notin> set rest \<and> c \<notin> produced s
          then Some (s\<lparr>bpc := B_Range data (c # rest)\<rparr>)
          else None
      | _ \<Rightarrow> None)"
| "step RangeEnd s =
     (case bpc s of
        B_Range data [] \<Rightarrow> Some (iter_step s (s\<lparr>bpc := B_Read\<rparr>))
      | _ \<Rightarrow> None)"
| "step (Accept ok) s =
     (if apc s = A_Accept then
        (if \<not> ok then Some (s\<lparr>logs := logs s @ [LogAcceptError]\<rparr>)
         else Some (s\<lparr>accepted := Suc (accepted s), apc := A_Register (accepted s)\<rparr>))
      else None)"
| "step Register s =
     (case apc s of
        A_Register c \<Rightarrow>
          Some (map_write G_Accept s (s\<lparr>clients := insert c (clients s), apc := A_Spawn c\<rparr>))
      | _ \<Rightarrow> None)"
| "step Spawn s =
     (case apc s of
        A_Spawn c \<Rightarrow> Some (s\<lparr>hpc := (hpc s)(c := H_Greet), apc := A_Accept\<rparr>)
      | _ \<Rightarrow> None)"
| "step (Greet c ok) s =
     (if hpc s c = H_Greet then
        (if ok \<and> \<not> is_closed (socks s c)
         then Some ((sock_add c (Wr greeting) s)\<lparr>hpc := (hpc s)(c := H_Read)\<rparr>)
         else Some (s\<lparr>logs := logs s @ [LogHeaderError], hpc := (hpc s)(c := H_Close)\<rparr>))
      else None)"
| "step (ConnRead c data err) s =
     (if hpc s c = H_Read \<and> length data \<le> 1 then
        (if is_closed (socks s c)
         then Some (s\<lparr>logs := logs s @ [LogClientReadError], hpc := (hpc s)(c := H_Close)\<rparr>)
         else
           let s1 = (if data = [] then s else sock_add c (Rd data) s) in
           case err of
             None \<Rightarrow> Some s1
           | Some EOF \<Rightarrow> Some (s1\<lparr>hpc := (hpc s1)(c := H_Close)\<rparr>)
           | Some OtherErr \<Rightarrow>
               Some (s1\<lparr>logs := logs s1 @ [LogClientReadError], hpc := (hpc s1)(c := H_Close)\<rparr>))
      else None)"
| "step (HClose c) s =
     (if hpc s c = H_Close then Some ((sock_add c Cl s)\<lparr>hpc := (hpc s)(c := H_Delete)\<rparr>)
      else None)"
| "step (HDelete c) s =
     (if hpc s c = H_Delete
      then Some (map_write (G_Handler c) s
                   (s\<lparr>clients := clients s - {c}, hpc := (hpc s)(c := H_Done)\<rparr>))
      else None)"
| "step (MapWriteBegin g) s =
     (if at_map_write g s then
        (if map_writer s = None then Some (s\<lparr>map_writer := Some g\<rparr>)
         else if map_writer s = Some g then None
         else Some (crash s))
      else None)"

text \<open>A schedule is a list of labels; \<open>exec\<close> runs it from a state.\<close>

fun exec :: "label list \<Rightarrow> NtripServer \<Rightarrow> NtripServer option" where
  "exec [] s = Some s"
| "exec (l # ls) s = (case step l s of None \<Rightarrow> None | Some s' \<Rightarrow> exec ls s')"


subsection \<open>Predicates and sample inputs used by the statements\<close>

text \<open>
  The handshake of \<open>Connect\<close> failed: the request could not be sent, the response could
  not be read, or the response was rejected.
\<close>

fun handshake_failed :: "outcome \<Rightarrow> bool" where
  "handshake_failed (Returned (Some SendRequestFailed)) = True"
| "handshake_failed (Returned (Some ReadResponseFailed)) = True"
| "handshake_failed (Returned (Some (InvalidServerResponse r))) = True"
| "handshake_failed r = False"

definition alice :: NtripClient where
  "alice = NewNtripClient ''localhost:2101'' ''RTCM3'' ''alice'' ''secret'' ''rtcm_data.bin''"

definition fresh_world :: world where
  "fresh_world =
     \<lparr>files = Map.empty, conn_sent = [], conn_closed = False, std_out = [], client_logs = []\<rparr>"

definition stale_world :: world where
  "stale_world = fresh_world\<lparr>files := [''rtcm_data.bin'' \<mapsto> ''old data'']\<rparr>"

definition env_of_reads :: "read_result list \<Rightarrow> client_env" where
  "env_of_reads rs =
     \<lparr>dial_ok = True, create_ok = True, send_ok = True, conn_reads = rs,
      create_rtcm_ok = True, fwrite_ok = (\<lambda>k. True)\<rparr>"

definition example_config :: Config where
  "example_config =
     \<lparr>server_port = 2101, server_host = ''0.0.0.0'', server_timeout = 30,
      serial_port = ''/dev/ttyUSB0'', serial_baud_rate = 9600, serial_data_bits = 8,
      serial_stop_bits = 1, serial_parity = ''N''\<rparr>"

definition all_ok :: start_env where
  "all_ok = \<lparr>open_port = (\<lambda>c. True), net_listen = (\<lambda>h p. True)\<rparr>"

definition listen_fails :: start_env where
  "listen_fails = \<lparr>open_port = (\<lambda>c. True), net_listen = (\<lambda>h p. False)\<rparr>"

text \<open>The server after a successful \<open>Start\<close>: both goroutines are running.\<close>

definition running :: NtripServer where
  "running = snd (Start all_ok (NewNtripServer example_config))"

definition sock_trace :: "conn \<Rightarrow> label list \<Rightarrow> ev list option" where
  "sock_trace c sched = map_option (\<lambda>s. socks s c) (exec sched running)"

definition broadcast_task_after :: "label list \<Rightarrow> btask option" where
  "broadcast_task_after sched = map_option bpc (exec sched running)"

definition registry_after :: "label list \<Rightarrow> conn set option" where
  "registry_after sched = map_option clients (exec sched running)"

definition handler_after :: "conn \<Rightarrow> label list \<Rightarrow> htask option" where
  "handler_after c sched = map_option (\<lambda>s. hpc s c) (exec sched running)"

text \<open>Nothing has been read from a socket with this history.\<close>

fun is_read :: "ev \<Rightarrow> bool" where
  "is_read (Rd d) = True"
| "is_read e = False"

definition never_read :: "ev list \<Rightarrow> bool" where
  "never_read evs = (filter is_read evs = [])"

text \<open>
  Every read in the history returned exactly one byte and comes after a write of the
  greeting line; \<open>g\<close> says whether the greeting has been written before the history
  starts.
\<close>

fun reads_follow_greeting :: "bool \<Rightarrow> ev list \<Rightarrow> bool" where
  "reads_follow_greeting g [] = True"
| "reads_follow_greeting g (Wr d # es) = reads_follow_greeting (g \<or> d = greeting) es"
| "reads_follow_greeting g (Rd d # es) = (g \<and> length d = 1 \<and> reads_follow_greeting g es)"
| "reads_follow_greeting g (Cl # es) = reads_follow_greeting g es"

text \<open>
  The statements of the accept task and of the handlers that write to the map
  \<open>s.clients\<close>, and the states in which the \<open>range\<close> loop of the broadcast task has keys
  still to produce. A conflict: after \<open>sched\<close>, the loop is under way and the statement
  \<open>l\<close> of another goroutine, which writes to the map, can run.
\<close>

fun mutates_registry :: "label \<Rightarrow> bool" where
  "mutates_registry Register = True"
| "mutates_registry (HDelete c) = True"
| "mutates_registry l = False"

definition in_range_loop :: "NtripServer \<Rightarrow> bool" where
  "in_range_loop s = (case bpc s of B_Range data rest \<Rightarrow> rest \<noteq> [] | _ \<Rightarrow> False)"

definition unsynchronized_conflict :: "label list \<Rightarrow> label \<Rightarrow> bool" where
  "unsynchronized_conflict sched l =
     (case exec sched running of
        None \<Rightarrow> False
      | Some s \<Rightarrow> in_range_loop s \<and> mutates_registry l \<and> step l s \<noteq> None)"

text \<open>
  The invariant behind the order of greeting and reads: the reads in every history
  follow the greeting; a handler that has not yet written the header has read nothing;
  a handler in the keep-alive loop has written the header; and, unless the process has
  crashed, connections not yet accepted have no handler and the connection the accept
  task holds has no handler yet.
\<close>

definition handler_inv :: "NtripServer \<Rightarrow> bool" where
  "handler_inv s =
     ((\<forall>c. reads_follow_greeting False (socks s c))
      \<and> (\<forall>c. hpc s c = H_NotStarted \<or> hpc s c = H_Greet \<longrightarrow> never_read (socks s c))
      \<and> (\<forall>c. hpc s c = H_Read \<longrightarrow> Wr greeting \<in> set (socks s c))
      \<and> (apc s = A_Crashed
          \<or> ((\<forall>c. accepted s \<le> c \<longrightarrow> hpc s c = H_NotStarted)
              \<and> (\<forall>c. apc s = A_Register c \<or> apc s = A_Spawn c \<longrightarrow>
                     hpc s c = H_NotStarted \<and> c < accepted s))))"

section \<open>Properties of the client\<close>

lemma request_of_credentials:
  assumes "username c \<noteq> []" and "password c \<noteq> []"
  shows "request_of c =
           ''GET /'' @ mountpoint c @ '' HTTP/1.0'' @ crlf
           @ ''Authorization: Basic '' @ username c @ '':'' @ password c @ crlf
           @ ''User-Agent: NTRIP Client'' @ crlf @ ''Connection: close'' @ crlf @ crlf"
  using assms by (simp add: request_of_def auth_of_def)

lemma request_of_no_credentials:
  assumes "username c = [] \<or> password c = []"
  shows "request_of c =
           ''GET /'' @ mountpoint c @ '' HTTP/1.0'' @ crlf
           @ ''User-Agent: NTRIP Client'' @ crlf @ ''Connection: close'' @ crlf @ crlf"
  using assms by (auto simp: request_of_def)

lemma base64_alice: "base64_spec ''alice:secret'' = ''YWxpY2U6c2VjcmV0''"
  by (simp add: b64_digit_def b64_alphabet_def)

text \<open>
  C3. The claim: the request carries \<open>Authorization: Basic\<close> followed by the base64
  encoding of \<open>user:pass\<close> when both are non-empty. For username \<open>alice\<close> and password
  \<open>secret\<close> the bytes \<open>Connect\<close> sends carry the credentials as they are,
  \<open>alice:secret\<close>; their base64 encoding is \<open>YWxpY2U6c2VjcmV0\<close>, and the header with
  that value does not occur in the request.
\<close>

theorem Connect_sends_plain_credentials:
  "conn_sent (snd (Connect alice (env_of_reads []) fresh_world)) =
     ''GET /RTCM3 HTTP/1.0'' @ crlf @ ''Authorization: Basic alice:secret'' @ crlf
     @ ''User-Agent: NTRIP Client'' @ crlf @ ''Connection: close'' @ crlf @ crlf
   \<and> base64_spec (auth_of alice) = ''YWxpY2U6c2VjcmV0''
   \<and> \<not> contains (request_of alice) (''Authorization: Basic '' @ base64_spec (auth_of alice))"
proof -
  have a: "auth_of alice = ''alice:secret''"
    by (simp add: auth_of_def alice_def NewNtripClient_def)
  have r: "request_of alice =
     ''GET /RTCM3 HTTP/1.0'' @ crlf @ ''Authorization: Basic alice:secret'' @ crlf
     @ ''User-Agent: NTRIP Client'' @ crlf @ ''Connection: close'' @ crlf @ crlf"
    by (simp add: request_of_def auth_of_def alice_def NewNtripClient_def)
  have s: "conn_sent (snd (Connect alice (env_of_reads []) fresh_world)) = request_of alice"
    by (simp add: Connect_def connected_def env_of_reads_def fresh_world_def os_Create_def Let_def)
  have n: "\<not> contains (request_of alice) (''Authorization: Basic '' @ ''YWxpY2U6c2VjcmV0'')"
    unfolding r by (simp add: crlf_def)
  show ?thesis using a r s n base64_alice by simp
qed

lemma relay_outcome:
  "fst (relay env path k rs w) \<in>
     {Blocked, Returned None, Returned (Some ReadRtcmFailed), Returned (Some WriteRtcmFailed)}"
proof (induction rs arbitrary: k w)
  case Nil
  show ?case by simp
next
  case (Cons r rs)
  obtain data err where r: "r = (data, err)" by (cases r)
  show ?case
  proof (cases err)
    case None
    with r Cons.IH show ?thesis by simp
  next
    case (Some e)
    with r show ?thesis by (cases e) simp_all
  qed
qed

lemma relay_not_Panicked: "fst (relay env path k rs w) \<noteq> Panicked"
  using relay_outcome [of env path k rs w] by auto

lemma relay_not_handshake_failed: "\<not> handshake_failed (fst (relay env path k rs w))"
  using relay_outcome [of env path k rs w] by auto

text \<open>
  A response of at least three bytes that does not begin with \<open>ICY\<close> is rejected:
  \<open>Connect\<close> returns the error "invalid server response", the connection is closed,
  standard output is untouched and the output file holds no byte.
\<close>

lemma Connect_rejects_non_ICY:
  assumes "dial_ok env" and "create_ok env" and "send_ok env"
    and "conn_reads env = (response, None) # rs"
    and "3 \<le> length response" and "take 3 response \<noteq> ''ICY''"
  shows "Connect c env w =
           (Returned (Some (InvalidServerResponse response)),
            w\<lparr>files := (files w)(outputFile c \<mapsto> []),
              conn_sent := conn_sent w @ request_of c,
              conn_closed := True\<rparr>)"
  using assms by (simp add: Connect_def connected_def Let_def os_Create_def)

text \<open>
  C5. The claim: for every server response that does not begin with \<open>ICY\<close>, \<open>Connect\<close>
  returns an error, the connection is closed and nothing is written to the sink. The
  response \<open>OK\<close> does not begin with \<open>ICY\<close>; the first read returns its two bytes, the
  slice expression \<open>response[:3]\<close> is out of range and \<open>Connect\<close> panics: it returns no
  error. (The deferred \<open>Close\<close> still runs, and nothing is written to the file or to
  standard output.) The unchecked slice is the defect of C8.
\<close>

theorem Connect_short_non_ICY_response_panics:
  "\<not> starts_with ''OK'' ''ICY''
   \<and> Connect alice (env_of_reads [(''OK'', None)]) fresh_world =
       (Panicked,
        fresh_world\<lparr>files := [''rtcm_data.bin'' \<mapsto> []],
                    conn_sent := request_of alice,
                    conn_closed := True\<rparr>)"
  by (simp add: Connect_def connected_def env_of_reads_def fresh_world_def alice_def
      NewNtripClient_def os_Create_def Let_def)

text \<open>
  C8. Once the request is sent and the first read of the response returns without
  error, \<open>Connect\<close> panics exactly when that read returned fewer than three bytes: the
  greeting check is total only for responses of at least three bytes.
\<close>

theorem Connect_short_response_panics:
  assumes "dial_ok env" and "create_ok env" and "send_ok env"
    and "conn_reads env = (response, None) # rs"
  shows "fst (Connect c env w) = Panicked \<longleftrightarrow> length response < 3"
proof -
  have "fst (Connect c env w) = fst (connected c env w)"
    using assms(1) by (simp add: Connect_def split: prod.splits outcome.splits)
  moreover have "fst (connected c env w) = Panicked \<longleftrightarrow> length response < 3"
    using assms(2-4) relay_not_Panicked by (simp add: connected_def Let_def)
  ultimately show ?thesis by simp
qed

theorem Connect_short_response_panics_witness:
  "dial_ok (env_of_reads [(''I'', None)]) \<and> create_ok (env_of_reads [(''I'', None)])
   \<and> send_ok (env_of_reads [(''I'', None)])
   \<and> conn_reads (env_of_reads [(''I'', None)]) = [(''I'', None)]
   \<and> fst (Connect alice (env_of_reads [(''I'', None)]) fresh_world) = Panicked"
  using Connect_short_response_panics [of "env_of_reads [(''I'', None)]" "''I''" "[]"
      alice fresh_world]
  by (simp add: env_of_reads_def)

lemma connected_failed_file:
  assumes "handshake_failed (fst (connected c env w))"
  shows "files (snd (connected c env w)) (outputFile c) = Some []"
proof (cases "conn_reads env")
  case Nil
  with assms show ?thesis
    by (auto simp: connected_def Let_def os_Create_def split: if_splits)
next
  case (Cons r rs)
  obtain response err where r: "r = (response, err)" by (cases r)
  from assms Cons r relay_not_handshake_failed show ?thesis
    by (auto simp: connected_def Let_def os_Create_def split: if_splits)
qed

text \<open>
  C9. Whatever the file system held before, when \<open>Connect\<close> ends with a failed handshake
  (the request could not be written, the response could not be read, or the response
  was not \<open>ICY\<close>) the output file exists and is empty: it was created, and truncated,
  before the handshake.
\<close>

theorem Connect_failed_handshake_leaves_empty_file:
  assumes "handshake_failed (fst (Connect c env w))"
  shows "files (snd (Connect c env w)) (outputFile c) = Some []"
proof -
  from assms have d: "dial_ok env"
    by (auto simp: Connect_def split: if_splits)
  obtain r w' where rw: "connected c env w = (r, w')" by (cases "connected c env w")
  from assms d rw have "handshake_failed r"
    by (cases r) (auto simp: Connect_def)
  with rw connected_failed_file [of c env w] have "files w' (outputFile c) = Some []" by simp
  with d rw show ?thesis by (cases r) (auto simp: Connect_def)
qed

theorem Connect_failed_handshake_witness:
  "files stale_world ''rtcm_data.bin'' = Some ''old data''
   \<and> handshake_failed (fst (Connect alice (env_of_reads [(''HTTP/1.0 404'', None)]) stale_world))
   \<and> files (snd (Connect alice (env_of_reads [(''HTTP/1.0 404'', None)]) stale_world))
        ''rtcm_data.bin'' = Some []"
proof -
  have h: "handshake_failed
             (fst (Connect alice (env_of_reads [(''HTTP/1.0 404'', None)]) stale_world))"
    by (simp add: Connect_def connected_def env_of_reads_def Let_def)
  have o: "outputFile alice = ''rtcm_data.bin''"
    by (simp add: alice_def NewNtripClient_def)
  have f: "files stale_world ''rtcm_data.bin'' = Some ''old data''"
    by (simp add: stale_world_def fresh_world_def)
  show ?thesis
    using h f Connect_failed_handshake_leaves_empty_file [OF h] o by simp
qed


section \<open>Properties of the server\<close>

lemma running_eq:
  "running = (NewNtripServer example_config)
     \<lparr>serial := Some Open, logs := [LogSerialOpened, LogServerStarted],
      listener := Some Open, bpc := B_Read, apc := A_Accept\<rparr>"
  by (simp add: running_def Start_def initSerial_def NewNtripServer_def example_config_def
      all_ok_def parity_of_def Let_def)

lemmas run_defs =
  sock_trace_def broadcast_task_after_def registry_after_def handler_after_def
  running_eq NewNtripServer_def sock_add_def is_closed_def
  map_write_def iter_step_def crash_def

subsection \<open>Start-up\<close>

lemma initSerial_keeps:
  "config (snd (initSerial env s)) = config s \<and> port (snd (initSerial env s)) = port s
   \<and> bpc (snd (initSerial env s)) = bpc s \<and> apc (snd (initSerial env s)) = apc s"
  by (simp add: initSerial_def Let_def split: option.splits)

lemma initSerial_ok_open:
  "fst (initSerial env s) = None \<Longrightarrow> serial (snd (initSerial env s)) = Some Open"
  by (auto simp: initSerial_def Let_def split: option.splits if_splits)

text \<open>
  C10. When \<open>initSerial\<close> succeeds (the serial port is open) and \<open>net.Listen\<close> fails,
  \<open>Start\<close> returns the error "failed to start server", and in the server it leaves
  behind the serial port is still open, there is no listener and no goroutine has been
  started.
\<close>

theorem Start_listen_failure_leaves_serial_open:
  assumes "fst (initSerial env s) = None"
    and "\<not> net_listen env (server_host (config s)) (port s)"
  shows "fst (Start env s) = Some StartServerFailed
         \<and> serial (snd (Start env s)) = Some Open
         \<and> listener (snd (Start env s)) = None
         \<and> bpc (snd (Start env s)) = bpc s \<and> apc (snd (Start env s)) = apc s"
proof -
  obtain s1 where s1: "initSerial env s = (None, s1)"
    using assms(1) by (cases "initSerial env s") auto
  have k: "config s1 = config s" "port s1 = port s" "bpc s1 = bpc s" "apc s1 = apc s"
    using initSerial_keeps [of env s] s1 by simp_all
  have o: "serial s1 = Some Open"
    using initSerial_ok_open [OF assms(1)] s1 by simp
  show ?thesis using s1 k o assms(2) by (simp add: Start_def)
qed

theorem Start_listen_failure_witness:
  "fst (initSerial listen_fails (NewNtripServer example_config)) = None
   \<and> \<not> net_listen listen_fails (server_host (config (NewNtripServer example_config)))
         (port (NewNtripServer example_config))
   \<and> fst (Start listen_fails (NewNtripServer example_config)) = Some StartServerFailed
   \<and> serial (snd (Start listen_fails (NewNtripServer example_config))) = Some Open"
proof -
  have a: "fst (initSerial listen_fails (NewNtripServer example_config)) = None"
    by (simp add: initSerial_def NewNtripServer_def example_config_def listen_fails_def
        parity_of_def Let_def)
  have b: "\<not> net_listen listen_fails (server_host (config (NewNtripServer example_config)))
         (port (NewNtripServer example_config))"
    by (simp add: listen_fails_def)
  show ?thesis using a b Start_listen_failure_leaves_serial_open [OF a b] by simp
qed

subsection \<open>One broadcast round\<close>

text \<open>
  C6. The claim: in every broadcast round a write failure on one subscriber closes and
  removes only that subscriber and does not keep the chunk from the others. With two
  greeted subscribers, 0 and 1, the serial port delivers \<open>AB\<close> and the loop takes key 0
  first. The write to 0 fails and the loop closes the connection. That \<open>Close\<close> makes
  the read of the handler of 0 return an error; the handler runs its deferred function
  and begins \<open>delete(s.clients, conn)\<close>. The \<open>delete\<close> of the loop finds the map being
  written: the process ends with a fatal error. Subscriber 1 is still registered and has
  received the greeting only, and no further statement runs. The defect is the missing
  synchronisation of C1.
\<close>

theorem write_failure_ends_round:
  "sock_trace 1
     [Accept True, Register, Spawn, Greet 0 True, Accept True, Register, Spawn, Greet 1 True,
      SerialRead ''AB'' None, RangeStart [0, 1], RangeNext False, RangeClose,
      ConnRead 0 [] (Some OtherErr), HClose 0, MapWriteBegin (G_Handler 0), RangeDelete]
     = Some [Wr greeting]
   \<and> registry_after
     [Accept True, Register, Spawn, Greet 0 True, Accept True, Register, Spawn, Greet 1 True,
      SerialRead ''AB'' None, RangeStart [0, 1], RangeNext False, RangeClose,
      ConnRead 0 [] (Some OtherErr), HClose 0, MapWriteBegin (G_Handler 0), RangeDelete]
     = Some {0, 1}
   \<and> broadcast_task_after
     [Accept True, Register, Spawn, Greet 0 True, Accept True, Register, Spawn, Greet 1 True,
      SerialRead ''AB'' None, RangeStart [0, 1], RangeNext False, RangeClose,
      ConnRead 0 [] (Some OtherErr), HClose 0, MapWriteBegin (G_Handler 0), RangeDelete]
     = Some B_Crashed
   \<and> sock_trace 1
     [Accept True, Register, Spawn, Greet 0 True, Accept True, Register, Spawn, Greet 1 True,
      SerialRead ''AB'' None, RangeStart [0, 1], RangeNext False, RangeClose,
      ConnRead 0 [] (Some OtherErr), HClose 0, MapWriteBegin (G_Handler 0), RangeDelete,
      RangeNext True]
     = None"
  by (simp add: run_defs insert_commute)

text \<open>
  In the same round without the handler's step, the loop removes subscriber 0 and
  delivers \<open>AB\<close> to subscriber 1.
\<close>

lemma write_failure_isolated_when_undisturbed:
  "sock_trace 1
     [Accept True, Register, Spawn, Greet 0 True, Accept True, Register, Spawn, Greet 1 True,
      SerialRead ''AB'' None, RangeStart [0, 1], RangeNext False, RangeClose, RangeDelete,
      RangeNext True, RangeEnd]
     = Some [Wr greeting, Wr ''AB'']
   \<and> sock_trace 0
     [Accept True, Register, Spawn, Greet 0 True, Accept True, Register, Spawn, Greet 1 True,
      SerialRead ''AB'' None, RangeStart [0, 1], RangeNext False, RangeClose, RangeDelete,
      RangeNext True, RangeEnd]
     = Some [Wr greeting, Cl]
   \<and> registry_after
     [Accept True, Register, Spawn, Greet 0 True, Accept True, Register, Spawn, Greet 1 True,
      SerialRead ''AB'' None, RangeStart [0, 1], RangeNext False, RangeClose, RangeDelete,
      RangeNext True, RangeEnd]
     = Some {1}"
  by (simp add: run_defs insert_commute)

subsection \<open>Read errors of the source\<close>

text \<open>
  C2. The claim: a read error of the serial port ends the broadcast loop, with no
  retry. In the code the branch \<open>if err != nil\<close> logs and executes \<open>continue\<close>: for
  every state in which the broadcast task is at its read, a failing read adds one log
  entry, changes nothing else and leaves the task at the read; the next read, when it
  succeeds, hands its chunk to the \<open>range\<close> loop.
\<close>

theorem serial_read_error_is_retried:
  assumes "bpc s = B_Read" and "length d \<le> 1024" and "length d' \<le> 1024"
  shows "exec [SerialRead d (Some e), SerialRead d' None] s =
           Some (s\<lparr>logs := logs s @ [LogSerialReadError], bpc := B_Data d'\<rparr>)"
  using assms by simp

theorem serial_read_error_is_retried_witness:
  "bpc running = B_Read
   \<and> exec [SerialRead [] (Some OtherErr), SerialRead ''AB'' None] running =
       Some (running\<lparr>logs := logs running @ [LogSerialReadError], bpc := B_Data ''AB''\<rparr>)"
proof -
  have b: "bpc running = B_Read" by (simp add: running_eq)
  show ?thesis
    using b serial_read_error_is_retried [OF b, of "[]" "''AB''" OtherErr] by simp
qed

text \<open>
  With one greeted subscriber: the read fails, the task is again at the read, the next
  read returns \<open>AB\<close> and \<open>AB\<close> is delivered. The loop has not ended.
\<close>

theorem serial_read_error_not_fatal:
  "broadcast_task_after [SerialRead [] (Some OtherErr)] = Some B_Read
   \<and> sock_trace 0 [Accept True, Register, Spawn, Greet 0 True,
                   SerialRead [] (Some OtherErr),
                   SerialRead ''AB'' None, RangeStart [0], RangeNext True]
       = Some [Wr greeting, Wr ''AB'']"
  by (simp add: run_defs)

subsection \<open>Greeting, request and relay data on one socket\<close>

text \<open>
  C4. The claim: on every accepted connection the greeting is written before any relay
  data. \<open>acceptConnections\<close> puts the connection into the map before it starts the
  handler that writes the greeting. In this schedule the broadcast task reads \<open>AB\<close> and
  runs its loop between the two: the first bytes written to socket 0 are \<open>AB\<close>, and
  the greeting follows them.
\<close>

theorem data_written_before_greeting:
  "sock_trace 0 [Accept True, Register,
                 SerialRead ''AB'' None, RangeStart [0], RangeNext True,
                 Spawn, Greet 0 True]
     = Some [Wr ''AB'', Wr greeting]"
  by (simp add: run_defs)

lemma never_read_Nil: "never_read []"
  by (simp add: never_read_def)

lemma never_read_Wr: "never_read (evs @ [Wr d]) = never_read evs"
  by (simp add: never_read_def)

lemma never_read_Cl: "never_read (evs @ [Cl]) = never_read evs"
  by (simp add: never_read_def)

lemma follow_Wr: "reads_follow_greeting g (evs @ [Wr d]) = reads_follow_greeting g evs"
  by (induction g evs rule: reads_follow_greeting.induct) simp_all

lemma follow_Cl: "reads_follow_greeting g (evs @ [Cl]) = reads_follow_greeting g evs"
  by (induction g evs rule: reads_follow_greeting.induct) simp_all

lemma follow_Rd:
  "reads_follow_greeting g (evs @ [Rd d]) =
     (reads_follow_greeting g evs \<and> (g \<or> Wr greeting \<in> set evs) \<and> length d = 1)"
  by (induction g evs rule: reads_follow_greeting.induct) auto

lemma handler_inv_crash: "handler_inv s \<Longrightarrow> handler_inv (crash s)"
  by (simp add: handler_inv_def crash_def)

lemma handler_inv_bpc: "handler_inv (s\<lparr>bpc := b\<rparr>) = handler_inv s"
  by (simp add: handler_inv_def)

lemma handler_inv_logs: "handler_inv (s\<lparr>logs := l\<rparr>) = handler_inv s"
  by (simp add: handler_inv_def)

lemma handler_inv_produced: "handler_inv (s\<lparr>produced := p\<rparr>) = handler_inv s"
  by (simp add: handler_inv_def)

lemma handler_inv_clients: "handler_inv (s\<lparr>clients := p\<rparr>) = handler_inv s"
  by (simp add: handler_inv_def)

lemma handler_inv_map_writer: "handler_inv (s\<lparr>map_writer := p\<rparr>) = handler_inv s"
  by (simp add: handler_inv_def)

lemma handler_inv_Wr: "handler_inv s \<Longrightarrow> handler_inv (sock_add c (Wr d) s)"
  by (simp add: handler_inv_def sock_add_def never_read_Wr follow_Wr)

lemma handler_inv_Cl: "handler_inv s \<Longrightarrow> handler_inv (sock_add c Cl s)"
  by (simp add: handler_inv_def sock_add_def never_read_Cl follow_Cl)

lemma handler_inv_iter_step:
  "handler_inv s \<Longrightarrow> handler_inv s' \<Longrightarrow> handler_inv (iter_step s s')"
  by (simp add: iter_step_def handler_inv_crash)

lemma handler_inv_map_write:
  "handler_inv s \<Longrightarrow> handler_inv s' \<Longrightarrow> handler_inv (map_write g s s')"
  by (simp add: map_write_def handler_inv_crash handler_inv_map_writer)

lemmas handler_inv_fields =
  handler_inv_bpc handler_inv_logs handler_inv_produced handler_inv_clients
  handler_inv_map_writer

lemma handler_inv_step:
  assumes "handler_inv s" and "step l s = Some s'"
  shows "handler_inv s'"
proof (cases l)
  case (SerialRead data err)
  with assms show ?thesis
    by (auto simp: handler_inv_fields split: if_splits)
next
  case (RangeStart order)
  with assms show ?thesis
    by (auto simp: handler_inv_fields intro!: handler_inv_iter_step
        split: btask.splits if_splits)
next
  case (RangeNext ok)
  with assms show ?thesis
    by (auto simp: handler_inv_fields handler_inv_Wr intro!: handler_inv_iter_step
        split: btask.splits list.splits)
next
  case RangeEnd
  with assms show ?thesis
    by (auto simp: handler_inv_fields intro!: handler_inv_iter_step
        split: btask.splits list.splits)
next
  case RangeClose
  with assms show ?thesis
    by (auto simp: handler_inv_fields handler_inv_Cl split: btask.splits)
next
  case RangeDelete
  with assms show ?thesis
    by (auto simp: handler_inv_fields intro!: handler_inv_map_write split: btask.splits)
next
  case (RangeAdopt c)
  with assms show ?thesis
    by (auto simp: handler_inv_fields split: btask.splits if_splits)
next
  case (Accept ok)
  with assms show ?thesis
    by (auto simp: handler_inv_def split: if_splits)
next
  case Register
  have "\<And>c. apc s = A_Register c \<Longrightarrow>
          handler_inv (s\<lparr>clients := insert c (clients s), apc := A_Spawn c\<rparr>)"
    using assms(1) by (auto simp: handler_inv_def)
  with Register assms show ?thesis
    by (auto intro!: handler_inv_map_write split: atask.splits)
next
  case Spawn
  with assms show ?thesis
    by (auto simp: handler_inv_def split: atask.splits if_splits)
next
  case (Greet c ok)
  with assms show ?thesis
    by (auto simp: handler_inv_def sock_add_def never_read_Wr follow_Wr split: if_splits)
next
  case (ConnRead c data err)
  have one: "data \<noteq> [] \<Longrightarrow> length data \<le> 1 \<Longrightarrow> length data = 1"
    by (cases data) simp_all
  have rd: "hpc s c = H_Read \<Longrightarrow> length data \<le> 1 \<Longrightarrow>
              handler_inv (if data = [] then s else sock_add c (Rd data) s)"
    using assms(1) one by (auto simp: handler_inv_def sock_add_def follow_Rd)
  have cl: "\<And>t. handler_inv t \<Longrightarrow> hpc t c = H_Read \<Longrightarrow>
              handler_inv (t\<lparr>hpc := (hpc t)(c := H_Close)\<rparr>)"
    by (auto simp: handler_inv_def)
  have keep: "hpc (if data = [] then s else sock_add c (Rd data) s) = hpc s"
    by (simp add: sock_add_def)
  from ConnRead assms(2) have pc: "hpc s c = H_Read" and len: "length data \<le> 1"
    by (auto split: if_splits)
  show ?thesis
  proof (cases "is_closed (socks s c)")
    case True
    with ConnRead assms(2) pc len
    have "s' = (s\<lparr>hpc := (hpc s)(c := H_Close)\<rparr>)\<lparr>logs := logs s @ [LogClientReadError]\<rparr>"
      by auto
    then show ?thesis
      using cl [OF assms(1) pc] by (simp add: handler_inv_logs)
  next
    case False
    let ?s1 = "if data = [] then s else sock_add c (Rd data) s"
    have i1: "handler_inv ?s1" using rd [OF pc len] .
    have p1: "hpc ?s1 c = H_Read" using keep pc by simp
    show ?thesis
    proof (cases err)
      case None
      with ConnRead assms(2) pc len False have "s' = ?s1" by (simp add: Let_def)
      with i1 show ?thesis by simp
    next
      case (Some e)
      show ?thesis
      proof (cases e)
        case EOF
        with Some ConnRead assms(2) pc len False
        have "s' = ?s1\<lparr>hpc := (hpc ?s1)(c := H_Close)\<rparr>" by (simp add: Let_def)
        with cl [OF i1 p1] show ?thesis by simp
      next
        case OtherErr
        with Some ConnRead assms(2) pc len False
        have "s' = (?s1\<lparr>hpc := (hpc ?s1)(c := H_Close)\<rparr>)
                      \<lparr>logs := logs ?s1 @ [LogClientReadError]\<rparr>"
          by (auto simp: Let_def)
        with cl [OF i1 p1] show ?thesis by (simp add: handler_inv_logs)
      qed
    qed
  qed
next
  case (HClose c)
  with assms show ?thesis
    by (auto simp: handler_inv_def sock_add_def never_read_Cl follow_Cl split: if_splits)
next
  case (HDelete c)
  have "hpc s c = H_Delete \<Longrightarrow>
          handler_inv (s\<lparr>clients := clients s - {c}, hpc := (hpc s)(c := H_Done)\<rparr>)"
    using assms(1) by (auto simp: handler_inv_def)
  with HDelete assms show ?thesis
    by (auto intro!: handler_inv_map_write split: if_splits)
next
  case (MapWriteBegin g)
  with assms show ?thesis
    by (auto simp: handler_inv_fields handler_inv_crash split: if_splits)
qed

lemma handler_inv_exec:
  "handler_inv s \<Longrightarrow> exec sched s = Some s' \<Longrightarrow> handler_inv s'"
proof (induction sched arbitrary: s)
  case Nil
  then show ?case by simp
next
  case (Cons l ls)
  then show ?case
    by (auto split: option.splits dest: handler_inv_step)
qed

lemma handler_inv_running: "handler_inv running"
  by (simp add: running_eq NewNtripServer_def handler_inv_def never_read_Nil)

text \<open>
  C7. The claim: the server reads the client's request line before it writes the
  greeting. \<open>handleClient\<close> writes the header as its first statement and reads only
  afterwards, in the keep-alive loop, into a buffer of one byte. Under every schedule of
  the goroutines and for every connection: as long as its handler has not started or is
  at the write of the greeting, nothing has been read from the connection; and every
  read in the history of the socket returned exactly one byte and comes after a write
  of the greeting line to that socket.
\<close>

theorem reads_only_after_greeting:
  assumes "sock_trace c sched = Some evs"
  shows "(handler_after c sched = Some H_NotStarted \<or> handler_after c sched = Some H_Greet
            \<longrightarrow> never_read evs)
         \<and> reads_follow_greeting False evs"
proof -
  from assms obtain s where e: "exec sched running = Some s" and evs: "evs = socks s c"
    by (auto simp: sock_trace_def)
  have h: "handler_after c sched = Some (hpc s c)"
    using e by (simp add: handler_after_def)
  have "handler_inv s"
    using handler_inv_exec [OF handler_inv_running e] .
  then show ?thesis
    using h evs by (auto simp: handler_inv_def)
qed

theorem reads_only_after_greeting_witness:
  "sock_trace 1
     [Accept True, Register, Spawn, Greet 0 True, ConnRead 0 ''G'' None,
      Accept True, Register, SerialRead ''AB'' None, RangeStart [0, 1],
      RangeNext True, RangeNext True, RangeEnd, Spawn] = Some [Wr ''AB'']
   \<and> handler_after 1
     [Accept True, Register, Spawn, Greet 0 True, ConnRead 0 ''G'' None,
      Accept True, Register, SerialRead ''AB'' None, RangeStart [0, 1],
      RangeNext True, RangeNext True, RangeEnd, Spawn] = Some H_Greet
   \<and> never_read [Wr ''AB'']
   \<and> sock_trace 0
     [Accept True, Register, Spawn, Greet 0 True, ConnRead 0 ''G'' None,
      Accept True, Register, SerialRead ''AB'' None, RangeStart [0, 1],
      RangeNext True, RangeNext True, RangeEnd, Spawn] = Some [Wr greeting, Rd ''G'', Wr ''AB'']
   \<and> reads_follow_greeting False [Wr greeting, Rd ''G'', Wr ''AB'']"
proof -
  let ?sched = "[Accept True, Register, Spawn, Greet 0 True, ConnRead 0 ''G'' None,
      Accept True, Register, SerialRead ''AB'' None, RangeStart [0, 1],
      RangeNext True, RangeNext True, RangeEnd, Spawn]"
  have t1: "sock_trace 1 ?sched = Some [Wr ''AB'']"
    by (simp add: run_defs insert_commute)
  have h1: "handler_after 1 ?sched = Some H_Greet"
    by (simp add: run_defs insert_commute)
  have t0: "sock_trace 0 ?sched = Some [Wr greeting, Rd ''G'', Wr ''AB'']"
    by (simp add: run_defs insert_commute)
  from reads_only_after_greeting [OF t1] h1 have a: "never_read [Wr ''AB'']"
    by simp
  from reads_only_after_greeting [OF t0]
  have b: "reads_follow_greeting False [Wr greeting, Rd ''G'', Wr ''AB'']"
    by (rule conjunct2)
  from t1 h1 a t0 b show ?thesis by (intro conjI)
qed

text \<open>
  The client sends its request as soon as it is connected. On socket 0 the greeting is
  written first; the first byte of the request, \<open>G\<close>, is read after it.
\<close>

theorem greeting_precedes_request_read:
  "sock_trace 0 [Accept True, Register, Spawn, Greet 0 True, ConnRead 0 ''G'' None]
     = Some [Wr greeting, Rd ''G'']"
  by (simp add: run_defs)

subsection \<open>Access to the registry\<close>

text \<open>
  C1. The claim: insertions into and removals from \<open>s.clients\<close> never run while the
  broadcast task iterates over it, under any interleaving. The server has no lock, and
  no statement waits for another goroutine. With subscriber 0 registered and a second
  connection accepted, the broadcast task reads \<open>AB\<close> and enters its \<open>range\<close> loop;
  before the loop has produced its first key, the accept task executes
  \<open>s.clients[conn] = true\<close> for connection 1. The map changes from \<open>{0}\<close> to
  \<open>{0, 1}\<close> while the loop still has key 0 to produce.
\<close>

theorem registry_mutated_during_iteration:
  "unsynchronized_conflict
     [Accept True, Register, Spawn, Greet 0 True, Accept True,
      SerialRead ''AB'' None, RangeStart [0]] Register
   \<and> registry_after
       [Accept True, Register, Spawn, Greet 0 True, Accept True,
        SerialRead ''AB'' None, RangeStart [0]] = Some {0}
   \<and> registry_after
       [Accept True, Register, Spawn, Greet 0 True, Accept True,
        SerialRead ''AB'' None, RangeStart [0], Register] = Some {0, 1}
   \<and> broadcast_task_after
       [Accept True, Register, Spawn, Greet 0 True, Accept True,
        SerialRead ''AB'' None, RangeStart [0], Register] = Some (B_Range ''AB'' [0])"
  by (simp add: unsynchronized_conflict_def in_range_loop_def run_defs insert_commute)

end
